theory Spec2Isabelle
  imports Complex_Main "HOL-Library.Word" "HOL-Library.Signed_Division"
begin

unbundle bit_operations_syntax

section \<open>The machine: peripheral registers, environment and console\<close>

text \<open>
  \<^verbatim>\<open>pi_helpers.h\<close> keeps three global pointers (\<^verbatim>\<open>gpio\<close>, \<^verbatim>\<open>sys_timer\<close>, \<^verbatim>\<open>spi0\<close>) to
  arrays of volatile 32-bit registers, and \<^verbatim>\<open>temp_control.c\<close> keeps three \<^verbatim>\<open>size_t\<close>
  locals of \<^verbatim>\<open>main\<close> that \<^verbatim>\<open>check_temp\<close> updates through pointers. The program targets the
  Raspberry Pi 2 (BCM2836, 32-bit ARM Linux): \<^verbatim>\<open>int\<close>, \<^verbatim>\<open>long\<close> and \<^verbatim>\<open>size_t\<close> are 32 bits
  wide and plain \<^verbatim>\<open>char\<close> is unsigned.

  \<^item> Values of C type \<^verbatim>\<open>int\<close> are modelled as \<open>int\<close>; where the code converts them to
    \<^verbatim>\<open>unsigned int\<close> the reduction modulo \<open>2 ^ 32\<close> is written as \<open>word_of_int\<close>.
  \<^item> \<^verbatim>\<open>unsigned int\<close> and \<^verbatim>\<open>size_t\<close> are \<open>32 word\<close>; \<^verbatim>\<open>char\<close> is \<open>8 word\<close>, read
    unsigned.
  \<^item> \<^verbatim>\<open>double\<close> values are modelled by the rational number they denote. Every
    intermediate value of \<^verbatim>\<open>get_current_temp\<close> is a multiple of \<open>1 / 4096\<close> below \<open>157\<close>,
    which binary64 represents without rounding (lemma \<open>get_current_temp_value_exact\<close>).
  \<^item> Every store to a register and every \<^verbatim>\<open>printf\<close> is appended to \<open>trace\<close>, in program
    order. The function-select registers are read back by the code; they are plain
    storage, so \<open>gpio\<close> holds the last value stored.
  \<^item> Registers whose value is produced by the hardware (SPI control/status and FIFO,
    timer counter and timer status) are read from streams supplied by the
    environment: the \<open>k\<close>-th read of such a register returns the stream's \<open>k\<close>-th
    element.
\<close>

datatype event =
    Print string
  | OpenDevMem
  | MapRegion int
  | GpioWrite nat "32 word"
  | SpiWrite nat "32 word"
  | TimerWrite nat "32 word"

record machine =
  gpio :: "nat \<Rightarrow> 32 word"
  trace :: "event list"
  dev_mem_ok :: bool
  mmap_ok :: "int \<Rightarrow> bool"
  spi_cs :: "nat \<Rightarrow> 32 word"
  spi_cs_n :: nat
  spi_fifo :: "nat \<Rightarrow> 32 word"
  spi_fifo_n :: nat
  timer_clo :: "nat \<Rightarrow> 32 word"
  timer_clo_n :: nat
  timer_cs :: "nat \<Rightarrow> 32 word"
  timer_cs_n :: nat
  target_temp :: "32 word"
  last_temp :: "32 word"
  overshoot :: "32 word"

text \<open>How a run of the program ends, or how far it has got.\<close>

datatype outcome =
    Exited int machine   \<comment> \<open>\<^verbatim>\<open>exit(n)\<close> or \<^verbatim>\<open>return n\<close> from \<^verbatim>\<open>main\<close>\<close>
  | Faulted machine      \<comment> \<open>integer division by zero\<close>
  | Running machine      \<comment> \<open>still inside \<^verbatim>\<open>while(1)\<close> after the observed iterations\<close>
  | Hung                 \<comment> \<open>a busy-wait poll that never ends\<close>

subsection \<open>Constants of \<^verbatim>\<open>pi_helpers.h\<close> and \<^verbatim>\<open>temp_control.c\<close>\<close>

definition INPUT :: int where "INPUT = 0"
definition OUTPUT :: int where "OUTPUT = 1"
definition ALT0 :: int where "ALT0 = 4"
definition BCM2836_PERI_BASE :: int where "BCM2836_PERI_BASE = 0x3F000000"
definition GPIO_BASE :: int where "GPIO_BASE = BCM2836_PERI_BASE + 0x200000"
definition SYS_TIMER_BASE :: int where "SYS_TIMER_BASE = BCM2836_PERI_BASE + 0x3000"
definition SPIO_BASE :: int where "SPIO_BASE = BCM2836_PERI_BASE + 0x204000"
definition CONTROLPIN :: int where "CONTROLPIN = 17"

subsection \<open>\<^verbatim>\<open>printf\<close>\<close>

definition nl :: string where
  "nl = [CHR 0x0A]"

function dec_digits :: "int \<Rightarrow> string" where
  "dec_digits n =
     (if n < 10 then [''0123456789'' ! nat n]
      else dec_digits (n div 10) @ [''0123456789'' ! nat (n mod 10)])"
  by pat_completeness auto
termination
  by (relation "measure nat") auto

declare dec_digits.simps [simp del]

text \<open>\<^verbatim>\<open>%d\<close> of an \<^verbatim>\<open>int\<close> and \<^verbatim>\<open>%lu\<close> of a \<^verbatim>\<open>size_t\<close>.\<close>

definition fmt_d :: "int \<Rightarrow> string" where
  "fmt_d i = (if i < 0 then ''-'' @ dec_digits (- i) else dec_digits i)"

definition fmt_lu :: "32 word \<Rightarrow> string" where
  "fmt_lu w = dec_digits (uint w)"

definition printf :: "string \<Rightarrow> machine \<Rightarrow> machine" where
  "printf s m = m\<lparr>trace := trace m @ [Print s]\<rparr>"

subsection \<open>Register stores\<close>

definition gpio_store :: "nat \<Rightarrow> 32 word \<Rightarrow> machine \<Rightarrow> machine" where
  "gpio_store i v m = m\<lparr>gpio := (gpio m)(i := v), trace := trace m @ [GpioWrite i v]\<rparr>"

definition spi_store :: "nat \<Rightarrow> 32 word \<Rightarrow> machine \<Rightarrow> machine" where
  "spi_store i v m = m\<lparr>trace := trace m @ [SpiWrite i v]\<rparr>"

definition timer_store :: "nat \<Rightarrow> 32 word \<Rightarrow> machine \<Rightarrow> machine" where
  "timer_store i v m = m\<lparr>trace := trace m @ [TimerWrite i v]\<rparr>"

section \<open>GPIO\<close>

text \<open>
  \<^verbatim>\<open>pio_init\<close>: opens \<^verbatim>\<open>/dev/mem\<close> and maps one block at \<^verbatim>\<open>GPIO_BASE\<close>; either failure
  prints a diagnostic and calls \<^verbatim>\<open>exit(-1)\<close>. \<^verbatim>\<open>MAP_FAILED\<close> is \<^verbatim>\<open>(void *) -1\<close>.
\<close>

definition pio_init :: "machine \<Rightarrow> outcome + machine" where
  "pio_init m =
     (let m1 = m\<lparr>trace := trace m @ [OpenDevMem]\<rparr> in
      if \<not> dev_mem_ok m1 then
        Inl (Exited (- 1) (printf (''can'' @ [CHR 0x27] @ ''t open /dev/mem '' @ nl) m1))
      else if \<not> mmap_ok m1 GPIO_BASE then
        Inl (Exited (- 1) (printf (''gpio mmap error '' @ fmt_d (- 1) @ nl) m1))
      else Inr (m1\<lparr>trace := trace m1 @ [MapRegion GPIO_BASE]\<rparr>))"

text \<open>
  \<^verbatim>\<open>pin_mode\<close>. Past the first test \<^verbatim>\<open>pin\<close> is in \<open>[0, 53]\<close>, where C's truncating
  \<^verbatim>\<open>/\<close> and \<^verbatim>\<open>%\<close> agree with \<open>div\<close> and \<open>mod\<close>. The two compound assignments each
  read \<^verbatim>\<open>gpio[offset]\<close> and store it back; their right-hand sides are \<^verbatim>\<open>int\<close>
  expressions converted to \<^verbatim>\<open>unsigned int\<close>.
\<close>

definition pin_mode :: "int \<Rightarrow> int \<Rightarrow> machine \<Rightarrow> machine" where
  "pin_mode pin function m =
     (if pin > 53 \<or> pin < 0 then
        printf (''bad pin, got pin '' @ fmt_d pin @ nl) m
      else
        let m1 = (if function > 7 \<or> function < 0
                  then printf (''bad function, got function '' @ fmt_d function @ nl) m
                  else m);
            offset = nat (pin div 10);
            shift = nat ((pin mod 10) * 3);
            m2 = gpio_store offset
                   (gpio m1 offset AND word_of_int (NOT (push_bit shift (NOT function AND 7)))) m1;
            m3 = gpio_store offset
                   (gpio m2 offset OR word_of_int (push_bit shift function)) m2
        in m3)"

definition digital_write :: "int \<Rightarrow> int \<Rightarrow> machine \<Rightarrow> machine" where
  "digital_write pin val m =
     (if pin > 53 \<or> pin < 0 then
        printf (''bad pin, got pin '' @ fmt_d pin @ nl) m
      else if val \<noteq> 0 then
        (let setr = (if pin < 32 then 7 else 8)
         in gpio_store setr (word_of_int (push_bit (nat (pin mod 32)) 1)) m)
      else
        (let clr = (if pin < 32 then 10 else 11)
         in gpio_store clr (word_of_int (push_bit (nat (pin mod 32)) 1)) m))"

text \<open>
  The 3-bit function-select field of pin \<open>q\<close>, as the BCM2836 lays it out: register
  \<open>q div 10\<close>, bit offset \<open>(q mod 10) * 3\<close>.
\<close>

definition fsel_field :: "(nat \<Rightarrow> 32 word) \<Rightarrow> nat \<Rightarrow> 32 word" where
  "fsel_field g q = drop_bit ((q mod 10) * 3) (g (q div 10)) AND 7"

section \<open>System timer\<close>

text \<open>
  \<^verbatim>\<open>while (!!(sys_timer[0] & 0x2) == 0);\<close> Each test reads the status register once.
  A poll that never sees the bit does not return: the value is \<open>None\<close>.
\<close>

partial_function (option) timer_wait_match :: "machine \<Rightarrow> machine option" where
  "timer_wait_match m =
     (if timer_cs m (timer_cs_n m) AND 0x2 = 0
      then timer_wait_match (m\<lparr>timer_cs_n := Suc (timer_cs_n m)\<rparr>)
      else Some (m\<lparr>timer_cs_n := Suc (timer_cs_n m)\<rparr>))"

declare timer_wait_match.simps [code]

definition sleep_micros :: "int \<Rightarrow> machine \<Rightarrow> machine option" where
  "sleep_micros micros m =
     (if micros = 0 then Some m
      else
        let clo = timer_clo m (timer_clo_n m);
            m1 = m\<lparr>timer_clo_n := Suc (timer_clo_n m)\<rparr>;
            m2 = timer_store 4 (clo + word_of_int micros) m1;
            m3 = timer_store 0 0x2 m2
        in timer_wait_match m3)"

text \<open>
  \<^verbatim>\<open>sleep_millis\<close> multiplies in \<^verbatim>\<open>int\<close>. When \<open>1000 * millis\<close> does not fit 32 bits the
  multiplication overflows and C leaves the behaviour undefined; the model reports that
  instead of choosing a result.
\<close>

datatype fault = Signed_overflow

definition sleep_millis :: "int \<Rightarrow> machine \<Rightarrow> fault + machine option" where
  "sleep_millis millis m =
     (if 1000 * millis < - (2 ^ 31) \<or> 2 ^ 31 \<le> 1000 * millis then Inl Signed_overflow
      else Inr (sleep_micros (1000 * millis) m))"

section \<open>SPI\<close>

definition spi_init :: "int \<Rightarrow> int \<Rightarrow> machine \<Rightarrow> outcome + machine" where
  "spi_init freq settings m =
     (let m1 = m\<lparr>trace := trace m @ [OpenDevMem]\<rparr> in
      if \<not> dev_mem_ok m1 then
        Inl (Exited (- 1) (printf (''can'' @ [CHR 0x27] @ ''t open /dev/mem '' @ nl) m1))
      else if \<not> mmap_ok m1 SPIO_BASE then
        Inl (Exited (- 1) (printf (''sys_timer mmap error '' @ fmt_d (- 1) @ nl) m1))
      else
        let m2 = m1\<lparr>trace := trace m1 @ [MapRegion SPIO_BASE]\<rparr>;
            m3 = pin_mode 8 ALT0 m2;
            m4 = pin_mode 9 ALT0 m3;
            m5 = pin_mode 10 ALT0 m4;
            m6 = pin_mode 11 ALT0 m5
        in if freq = 0 then Inl (Faulted m6)
           else
             let m7 = spi_store 2 (word_of_int (250000000 sdiv freq)) m6;
                 m8 = spi_store 0 (word_of_int settings) m7;
                 cs = spi_cs m8 (spi_cs_n m8);
                 m9 = m8\<lparr>spi_cs_n := Suc (spi_cs_n m8)\<rparr>
             in Inr (spi_store 0 (cs OR 0x00000080) m9))"

text \<open>\<^verbatim>\<open>while (!(spi0[0] & 0x00010000));\<close>\<close>

partial_function (option) spi_wait_done :: "machine \<Rightarrow> machine option" where
  "spi_wait_done m =
     (if spi_cs m (spi_cs_n m) AND 0x00010000 = 0
      then spi_wait_done (m\<lparr>spi_cs_n := Suc (spi_cs_n m)\<rparr>)
      else Some (m\<lparr>spi_cs_n := Suc (spi_cs_n m)\<rparr>))"

declare spi_wait_done.simps [code]

definition spi_send_receive :: "8 word \<Rightarrow> machine \<Rightarrow> (8 word \<times> machine) option" where
  "spi_send_receive send m =
     (case spi_wait_done (spi_store 1 (ucast send) m) of
        None \<Rightarrow> None
      | Some m1 \<Rightarrow>
          Some (ucast (spi_fifo m1 (spi_fifo_n m1)), m1\<lparr>spi_fifo_n := Suc (spi_fifo_n m1)\<rparr>))"

section \<open>The thermostat\<close>

definition get_current_temp :: "machine \<Rightarrow> (rat \<times> machine) option" where
  "get_current_temp m =
     (case spi_send_receive 0x68 m of
        None \<Rightarrow> None
      | Some (one, m1) \<Rightarrow>
          (case spi_send_receive 0x00 m1 of
             None \<Rightarrow> None
           | Some (two, m2) \<Rightarrow>
               let response = (0x00000000 :: int);
                   response = push_bit 8 (response OR (uint one AND 0x03));
                   response = response OR uint two;
                   voltage = of_int (response * 5) / (1024.0 :: rat)
               in Some (31.25 * voltage, m2)))"

text \<open>
  \<^verbatim>\<open>(size_t)\<close> of a \<^verbatim>\<open>double\<close> drops the fraction; the readings are never negative
  (lemma \<open>get_current_temp_range\<close>), where that is \<open>floor\<close>.
\<close>

definition double_to_size_t :: "rat \<Rightarrow> 32 word" where
  "double_to_size_t x = word_of_int \<lfloor>x\<rfloor>"

text \<open>
  The body of \<^verbatim>\<open>check_temp\<close> after \<^verbatim>\<open>current_temp\<close> has been read. In
  \<^verbatim>\<open>fmax(current_temp, *overshoot)\<close> both 32-bit values convert to \<^verbatim>\<open>double\<close> and back
  without rounding, so the assignment stores their maximum.
\<close>

definition check_temp_body :: "32 word \<Rightarrow> machine \<Rightarrow> machine" where
  "check_temp_body current_temp m =
     (let m1 = (if current_temp \<noteq> last_temp m then
                  let ma = printf (''current temp: '' @ fmt_lu current_temp @ nl) m;
                      mb = ma\<lparr>last_temp := current_temp\<rparr>
                  in if current_temp \<ge> target_temp mb
                     then printf (''overshoot: '' @ fmt_lu (overshoot mb - target_temp mb) @ nl) mb
                     else mb
                else m);
          m2 = (if current_temp < target_temp m1
                then digital_write CONTROLPIN 1 m1
                else digital_write CONTROLPIN 0 m1)
      in m2\<lparr>overshoot := max current_temp (overshoot m2)\<rparr>)"

definition check_temp :: "machine \<Rightarrow> machine option" where
  "check_temp m =
     (case get_current_temp m of
        None \<Rightarrow> None
      | Some (t, m1) \<Rightarrow> Some (check_temp_body (double_to_size_t t) m1))"

text \<open>
  \<^verbatim>\<open>while(1) { check_temp(...); }\<close> never returns. \<open>control_loop n\<close> is the state after
  \<open>n\<close> iterations, and \<open>None\<close> when one of them hangs in a transfer.
\<close>

fun control_loop :: "nat \<Rightarrow> machine \<Rightarrow> machine option" where
  "control_loop 0 m = Some m"
| "control_loop (Suc n) m =
     (case check_temp m of None \<Rightarrow> None | Some m1 \<Rightarrow> control_loop n m1)"

text \<open>The same iterations with the truncated readings given directly.\<close>

fun observe :: "32 word list \<Rightarrow> machine \<Rightarrow> machine" where
  "observe [] m = m"
| "observe (r # rs) m = observe rs (check_temp_body r m)"

text \<open>The truncated readings that the first \<open>n\<close> iterations of the loop obtain.\<close>

fun readings :: "nat \<Rightarrow> machine \<Rightarrow> 32 word list option" where
  "readings 0 m = Some []"
| "readings (Suc n) m =
     (case get_current_temp m of
        None \<Rightarrow> None
      | Some (t, m1) \<Rightarrow>
          (case readings n (check_temp_body (double_to_size_t t) m1) of
             None \<Rightarrow> None
           | Some rs \<Rightarrow> Some (double_to_size_t t # rs)))"

text \<open>
  \<^verbatim>\<open>main\<close>. \<open>argv\<close> is the whole argument vector (\<^verbatim>\<open>argc\<close> is its length); \<open>strtol\<close> is
  the C library's \<^verbatim>\<open>strtol(s, NULL, 10)\<close>, whose \<^verbatim>\<open>long\<close> result is a 32-bit word read
  in two's complement, so that the conversion to \<^verbatim>\<open>size_t\<close> keeps the bits; \<open>n\<close>
  is the number of loop iterations observed. The part of \<^verbatim>\<open>main\<close> from \<^verbatim>\<open>pio_init()\<close>
  on is \<open>thermostat\<close>. Installing the \<^verbatim>\<open>SIGINT\<close> handler touches no register and prints
  nothing; the handler itself runs asynchronously and is outside this model.
\<close>

definition thermostat :: "nat \<Rightarrow> machine \<Rightarrow> outcome" where
  "thermostat n m =
     (case pio_init m of
        Inl e \<Rightarrow> e
      | Inr m1 \<Rightarrow>
          (case spi_init 244000 0 m1 of
             Inl e \<Rightarrow> e
           | Inr m2 \<Rightarrow>
               let m3 = pin_mode CONTROLPIN OUTPUT m2;
                   m4 = m3\<lparr>last_temp := 0, overshoot := 0\<rparr>
               in (case control_loop n m4 of None \<Rightarrow> Hung | Some m5 \<Rightarrow> Running m5)))"

definition main :: "(string \<Rightarrow> 32 word) \<Rightarrow> nat \<Rightarrow> string list \<Rightarrow> machine \<Rightarrow> outcome" where
  "main strtol n argv m =
     (if length argv \<noteq> 2 then
        Exited 1
          (printf ([CHR 0x09] @ ''./temp_control temperature'' @ nl)
             (printf (''Incorrect call to temp_control. The correct format is'' @ nl) m))
      else
        let m1 = m\<lparr>target_temp := strtol (argv ! 1)\<rparr> in
        if target_temp m1 > 70 \<or> target_temp m1 < 30 then
          Exited 2
            (printf (''Invalid temperature parameter. Please choose a temperature''
                     @ ''between 30 and 70'' @ nl) m1)
        else thermostat n m1)"

section \<open>Fixtures for concrete runs\<close>

text \<open>
  \<^verbatim>\<open>strtol(s, NULL, 10)\<close> of the C library, after the C standard: leading white space is
  skipped, an optional sign is read, then the longest run of decimal digits; no digits
  give \<open>0\<close>, and a value outside \<^verbatim>\<open>long\<close> is clamped to \<^verbatim>\<open>LONG_MIN\<close> or \<^verbatim>\<open>LONG_MAX\<close>.
\<close>

definition isspace :: "char \<Rightarrow> bool" where
  "isspace c = (c \<in> set [CHR 0x20, CHR 0x09, CHR 0x0A, CHR 0x0B, CHR 0x0C, CHR 0x0D])"

fun digits_val :: "int \<Rightarrow> string \<Rightarrow> int" where
  "digits_val acc [] = acc"
| "digits_val acc (c # cs) =
     (if (48 :: nat) \<le> of_char c \<and> of_char c \<le> (57 :: nat)
      then digits_val (acc * 10 + (int (of_char c) - 48)) cs
      else acc)"

definition strtol10 :: "string \<Rightarrow> 32 word" where
  "strtol10 s =
     (let s1 = dropWhile isspace s;
          neg = (s1 \<noteq> [] \<and> hd s1 = CHR ''-'');
          s2 = (if s1 \<noteq> [] \<and> (hd s1 = CHR ''-'' \<or> hd s1 = CHR ''+'') then tl s1 else s1);
          v = digits_val 0 s2;
          v = (if neg then - v else v)
      in word_of_int (max (- (2 ^ 31)) (min (2 ^ 31 - 1) v)))"

text \<open>
  A machine before the program starts: registers clear, nothing printed, \<^verbatim>\<open>/dev/mem\<close>
  accessible, an SPI slave that completes every transfer at the first poll and
  answers with the bytes of \<open>fifo\<close> in turn, and a timer whose match bit is set.
\<close>

definition power_on :: "32 word list \<Rightarrow> machine" where
  "power_on fifo =
     \<lparr>gpio = (\<lambda>_. 0), trace = [], dev_mem_ok = True, mmap_ok = (\<lambda>_. True),
      spi_cs = (\<lambda>_. 0x00010000), spi_cs_n = 0,
      spi_fifo = (\<lambda>k. if k < length fifo then fifo ! k else 0), spi_fifo_n = 0,
      timer_clo = (\<lambda>_. 0), timer_clo_n = 0,
      timer_cs = (\<lambda>_. 0x2), timer_cs_n = 0,
      target_temp = 0, last_temp = 0, overshoot = 0\<rparr>"

section \<open>Bit-level facts\<close>

lemma small_int_bits:
  fixes f :: int
  assumes "0 \<le> f" "f \<le> 7"
  shows "bit f n \<longleftrightarrow> n < 3 \<and> bit f n"
proof -
  have "take_bit 3 f = f" using assms by (simp add: take_bit_int_eq_self)
  then have "bit f n = bit (take_bit 3 f) n" by simp
  then show ?thesis by (simp add: bit_take_bit_iff)
qed

lemma bit_seven: "bit (7 :: int) n \<longleftrightarrow> n < 3"
proof -
  have e: "(7 :: int) = mask 3" by (simp add: mask_eq_exp_minus_1)
  show ?thesis by (subst e) (simp add: bit_mask_iff)
qed

lemma bit_seven_w: "bit (7 :: 32 word) n \<longleftrightarrow> n < 3"
proof -
  have e: "(7 :: 32 word) = mask 3" by (simp add: mask_eq_exp_minus_1)
  show ?thesis by (subst e) (auto simp add: bit_mask_iff)
qed

text \<open>The read-modify-write of \<^verbatim>\<open>pin_mode\<close> on one register: field \<open>i\<close> receives \<open>f\<close>.\<close>

lemma field_written:
  fixes w :: "32 word" and f :: int
  assumes "0 \<le> f" "f \<le> 7" "i < 10"
  shows "drop_bit (i * 3)
           ((w AND word_of_int (NOT (push_bit (i * 3) (NOT f AND 7))))
              OR word_of_int (push_bit (i * 3) f)) AND 7 = word_of_int f"
proof (rule bit_eqI)
  fix n
  have fb: "bit f k \<Longrightarrow> k < 3" for k
    using small_int_bits [OF assms(1,2)] by blast
  show "bit (drop_bit (i * 3)
           ((w AND word_of_int (NOT (push_bit (i * 3) (NOT f AND 7))))
              OR word_of_int (push_bit (i * 3) f)) AND 7) n = bit (word_of_int f :: 32 word) n"
    using assms(3) fb [of n]
    by (auto simp add: bit_simps bit_seven bit_seven_w)
qed

text \<open>... and every other field \<open>j\<close> of that register keeps its bits.\<close>

lemma field_kept:
  fixes w :: "32 word" and f :: int
  assumes "0 \<le> f" "f \<le> 7" "i < 10" "j < 10" "j \<noteq> i"
  shows "drop_bit (j * 3)
           ((w AND word_of_int (NOT (push_bit (i * 3) (NOT f AND 7))))
              OR word_of_int (push_bit (i * 3) f)) AND 7 = drop_bit (j * 3) w AND 7"
proof (rule bit_eqI)
  fix n
  have fb: "bit f k \<Longrightarrow> k < 3" for k
    using small_int_bits [OF assms(1,2)] by blast
  show "bit (drop_bit (j * 3)
           ((w AND word_of_int (NOT (push_bit (i * 3) (NOT f AND 7))))
              OR word_of_int (push_bit (i * 3) f)) AND 7) n = bit (drop_bit (j * 3) w AND 7) n"
    using assms(3,4,5) fb [of "j * 3 + n - i * 3"]
    by (auto simp add: bit_simps bit_seven bit_seven_w)
qed

section \<open>GPIO: pin_mode and digital_write\<close>

lemma pin_mode_gpio:
  assumes "0 \<le> pin" "pin \<le> 53"
  shows "gpio (pin_mode pin function m) =
         (gpio m)(nat (pin div 10) :=
            (gpio m (nat (pin div 10))
               AND word_of_int (NOT (push_bit (nat ((pin mod 10) * 3)) (NOT function AND 7))))
            OR word_of_int (push_bit (nat ((pin mod 10) * 3)) function))"
  using assms by (simp add: pin_mode_def Let_def gpio_store_def printf_def)

text \<open>
  Claim C4. \<^verbatim>\<open>pin_mode\<close> checks its two arguments differently. A pin outside \<open>[0, 53]\<close>
  prints \<^verbatim>\<open>bad pin\<close> and returns: nothing is stored and the registers are as before.
  A function code outside \<open>[0, 7]\<close> with a pin in range prints \<^verbatim>\<open>bad function\<close> and
  falls through: both read-modify-write stores are made, computed from the rejected
  value itself.
\<close>

theorem pin_mode_validation_asymmetric:
  "(pin > 53 \<or> pin < 0 \<longrightarrow>
      trace (pin_mode pin function m) =
        trace m @ [Print (''bad pin, got pin '' @ fmt_d pin @ nl)] \<and>
      gpio (pin_mode pin function m) = gpio m) \<and>
   (0 \<le> pin \<and> pin \<le> 53 \<and> (function > 7 \<or> function < 0) \<longrightarrow>
      (let offset = nat (pin div 10);
           shift = nat ((pin mod 10) * 3);
           v1 = gpio m offset AND word_of_int (NOT (push_bit shift (NOT function AND 7)));
           v2 = v1 OR word_of_int (push_bit shift function)
       in trace (pin_mode pin function m) =
            trace m @ [Print (''bad function, got function '' @ fmt_d function @ nl),
                       GpioWrite offset v1, GpioWrite offset v2] \<and>
          gpio (pin_mode pin function m) = (gpio m)(offset := v2)))"
  by (auto simp add: pin_mode_def Let_def gpio_store_def printf_def)

theorem pin_mode_validation_asymmetric_witness:
  "trace (pin_mode 54 1 (power_on [])) = [Print (''bad pin, got pin 54'' @ nl)] \<and>
   gpio (pin_mode 54 1 (power_on [])) = gpio (power_on []) \<and>
   trace (pin_mode 17 9 (power_on [])) =
     [Print (''bad function, got function 9'' @ nl),
      GpioWrite 1 0, GpioWrite 1 0x1200000] \<and>
   gpio (pin_mode 17 9 (power_on [])) 1 = 0x1200000"
  using pin_mode_validation_asymmetric [of 54 1 "power_on []"]
        pin_mode_validation_asymmetric [of 17 9 "power_on []"]
  by (simp add: power_on_def fmt_d_def dec_digits.simps Let_def)

text \<open>
  What a call with valid arguments does to the function-select fields, to the trace and
  to the rest of the machine.
\<close>

lemma pin_mode_fields:
  assumes "0 \<le> p" "p \<le> 53" "0 \<le> f" "f \<le> 7"
  shows "fsel_field (gpio (pin_mode p f m)) (nat p) = word_of_int f \<and>
         (\<forall>q. q \<noteq> nat p \<longrightarrow>
                fsel_field (gpio (pin_mode p f m)) q = fsel_field (gpio m) q)"
proof -
  have off: "nat (p div 10) = nat p div 10"
    using assms(1) by (simp add: nat_div_distrib)
  have sh: "nat ((p mod 10) * 3) = (nat p mod 10) * 3"
    using assms(1) by (simp add: nat_mod_distrib nat_mult_distrib)
  have lt: "nat p mod 10 < 10" by simp
  note g = pin_mode_gpio [OF assms(1,2), of f m, unfolded off sh]
  have own: "fsel_field (gpio (pin_mode p f m)) (nat p) = word_of_int f"
    unfolding g fsel_field_def using field_written [OF assms(3,4) lt] by simp
  have others: "fsel_field (gpio (pin_mode p f m)) q = fsel_field (gpio m) q"
    if "q \<noteq> nat p" for q
  proof (cases "q div 10 = nat p div 10")
    case True
    with that have ne: "q mod 10 \<noteq> nat p mod 10"
      by (metis div_mult_mod_eq)
    have "q mod 10 < 10" by simp
    from field_kept [OF assms(3,4) lt this ne] True show ?thesis
      unfolding g fsel_field_def by simp
  next
    case False
    then show ?thesis unfolding g fsel_field_def by simp
  qed
  from own others show ?thesis by blast
qed



text \<open>
  Claim C5. For a pin \<open>p\<close> in \<open>[0, 53]\<close> and a function \<open>f\<close> in \<open>[0, 7]\<close>, after
  \<^verbatim>\<open>pin_mode(p, f)\<close> the 3-bit function-select field of pin \<open>p\<close> (register \<open>p div 10\<close>,
  bit offset \<open>(p mod 10) * 3\<close>) holds \<open>f\<close>, and the field of every other pin is what
  it was.
\<close>

theorem pin_mode_sets_field_only:
  assumes "0 \<le> p" "p \<le> 53" "0 \<le> f" "f \<le> 7"
  shows "fsel_field (gpio (pin_mode p f m)) (nat p) = word_of_int f \<and>
         (\<forall>q. q \<noteq> nat p \<longrightarrow>
                fsel_field (gpio (pin_mode p f m)) q = fsel_field (gpio m) q)"
  using assms by (rule pin_mode_fields)

theorem pin_mode_sets_field_only_witness:
  "(0 :: int) \<le> 17 \<and> (17 :: int) \<le> 53 \<and> (0 :: int) \<le> 1 \<and> (1 :: int) \<le> 7 \<and>
   fsel_field (gpio (pin_mode 17 1 (power_on []))) 17 = 1 \<and>
   fsel_field (gpio (pin_mode 17 1 (power_on []))) 16 = fsel_field (gpio (power_on [])) 16"
  using pin_mode_sets_field_only [of 17 1 "power_on []"]
  by auto

text \<open>
  Claim C6. For a pin \<open>p\<close> in \<open>[0, 53]\<close>, \<^verbatim>\<open>digital_write(p, v)\<close> makes exactly one
  store: with \<open>v\<close> nonzero to set register 7 (\<open>p < 32\<close>) or 8, with \<open>v\<close> zero to
  clear register 10 (\<open>p < 32\<close>) or 11. The word stored has the single bit
  \<open>p mod 32\<close>. No other register is written, the complementary one included.
\<close>

theorem digital_write_single_bit:
  assumes "0 \<le> p" "p \<le> 53"
  shows "(v \<noteq> 0 \<longrightarrow>
            trace (digital_write p v m) =
              trace m @ [GpioWrite (if p < 32 then 7 else 8) (push_bit (nat (p mod 32)) 1)]) \<and>
         (v = 0 \<longrightarrow>
            trace (digital_write p v m) =
              trace m @ [GpioWrite (if p < 32 then 10 else 11) (push_bit (nat (p mod 32)) 1)]) \<and>
         (\<forall>n. bit (push_bit (nat (p mod 32)) 1 :: 32 word) n \<longleftrightarrow> n = nat (p mod 32))"
proof -
  have "nat (p mod 32) < 32" using assms by simp
  then have bits:
    "\<forall>n. bit (push_bit (nat (p mod 32)) 1 :: 32 word) n \<longleftrightarrow> n = nat (p mod 32)"
    by (auto simp add: bit_simps)
  have w: "(word_of_int (push_bit (nat (p mod 32)) 1) :: 32 word) = push_bit (nat (p mod 32)) 1"
    by (simp add: push_bit_eq_mult)
  show ?thesis
    using assms bits by (simp add: digital_write_def Let_def gpio_store_def w)
qed

theorem digital_write_single_bit_witness:
  "trace (digital_write 17 1 (power_on [])) = [GpioWrite 7 0x20000] \<and>
   trace (digital_write 17 0 (power_on [])) = [GpioWrite 10 0x20000] \<and>
   trace (digital_write 53 1 (power_on [])) = [GpioWrite 8 0x200000] \<and>
   trace (digital_write 53 0 (power_on [])) = [GpioWrite 11 0x200000]"
  using digital_write_single_bit [of 17 1 "power_on []"]
        digital_write_single_bit [of 17 0 "power_on []"]
        digital_write_single_bit [of 53 1 "power_on []"]
        digital_write_single_bit [of 53 0 "power_on []"]
  by (simp add: power_on_def)

text \<open>
  Claim C10. With the function code 8 and the valid pin 0, \<^verbatim>\<open>pin_mode\<close> prints
  \<^verbatim>\<open>bad function\<close> and then ORs the unmasked \<open>8 << 0\<close> into register 0. Bit 3 belongs
  to pin 1: its field goes from 0 (input) to 1 (output).
\<close>

theorem pin_mode_bad_function_clobbers_neighbour:
  "fsel_field (gpio (power_on [])) 1 = 0 \<and>
   fsel_field (gpio (pin_mode 0 8 (power_on []))) 1 = 1 \<and>
   trace (pin_mode 0 8 (power_on [])) =
     [Print (''bad function, got function 8'' @ nl), GpioWrite 0 0, GpioWrite 0 8]"
  by (simp add: pin_mode_def power_on_def fsel_field_def gpio_store_def printf_def
      fmt_d_def dec_digits.simps Let_def)

section \<open>SPI transfers and the temperature reading\<close>

lemma spi_wait_done_at:
  assumes "\<forall>j<k. spi_cs m (spi_cs_n m + j) AND 0x00010000 = 0"
      and "spi_cs m (spi_cs_n m + k) AND 0x00010000 \<noteq> 0"
  shows "spi_wait_done m = Some (m\<lparr>spi_cs_n := spi_cs_n m + k + 1\<rparr>)"
  using assms
proof (induction k arbitrary: m)
  case 0
  then show ?case by (subst spi_wait_done.simps) simp
next
  case (Suc k)
  let ?m = "m\<lparr>spi_cs_n := Suc (spi_cs_n m)\<rparr>"
  from Suc.prems(1) have first: "spi_cs m (spi_cs_n m) AND 0x00010000 = 0"
    by (metis add.right_neutral zero_less_Suc)
  have "\<forall>j<k. spi_cs ?m (spi_cs_n ?m + j) AND 0x00010000 = 0"
    using Suc.prems(1) by (auto dest: spec [where x = "Suc j" for j])
  moreover have "spi_cs ?m (spi_cs_n ?m + k) AND 0x00010000 \<noteq> 0"
    using Suc.prems(2) by simp
  ultimately have "spi_wait_done ?m = Some (?m\<lparr>spi_cs_n := spi_cs_n ?m + k + 1\<rparr>)"
    by (rule Suc.IH)
  with first show ?case by (subst spi_wait_done.simps) simp
qed

lemma spi_wait_done_Some:
  assumes "spi_wait_done m = Some m'"
  shows "\<exists>k. m' = m\<lparr>spi_cs_n := spi_cs_n m + k + 1\<rparr> \<and>
             (\<forall>j<k. spi_cs m (spi_cs_n m + j) AND 0x00010000 = 0) \<and>
             spi_cs m (spi_cs_n m + k) AND 0x00010000 \<noteq> 0"
  using assms
proof (rule spi_wait_done.raw_induct [rotated])
  fix wait :: "machine \<Rightarrow> machine option" and m m'
  assume IH: "\<And>x y. wait x = Some y \<Longrightarrow>
                \<exists>k. y = x\<lparr>spi_cs_n := spi_cs_n x + k + 1\<rparr> \<and>
                    (\<forall>j<k. spi_cs x (spi_cs_n x + j) AND 0x00010000 = 0) \<and>
                    spi_cs x (spi_cs_n x + k) AND 0x00010000 \<noteq> 0"
    and body: "(if spi_cs m (spi_cs_n m) AND 0x00010000 = 0
                then wait (m\<lparr>spi_cs_n := Suc (spi_cs_n m)\<rparr>)
                else Some (m\<lparr>spi_cs_n := Suc (spi_cs_n m)\<rparr>)) = Some m'"
  show "\<exists>k. m' = m\<lparr>spi_cs_n := spi_cs_n m + k + 1\<rparr> \<and>
            (\<forall>j<k. spi_cs m (spi_cs_n m + j) AND 0x00010000 = 0) \<and>
            spi_cs m (spi_cs_n m + k) AND 0x00010000 \<noteq> 0"
  proof (cases "spi_cs m (spi_cs_n m) AND 0x00010000 = 0")
    case False
    with body have "m' = m\<lparr>spi_cs_n := spi_cs_n m + 0 + 1\<rparr>" by simp
    with False show ?thesis by (intro exI [where x = "0::nat"]) simp
  next
    case True
    let ?m = "m\<lparr>spi_cs_n := Suc (spi_cs_n m)\<rparr>"
    from True body have "wait ?m = Some m'" by simp
    from IH [OF this] obtain k where
      k: "m' = ?m\<lparr>spi_cs_n := spi_cs_n ?m + k + 1\<rparr>"
         "\<forall>j<k. spi_cs ?m (spi_cs_n ?m + j) AND 0x00010000 = 0"
         "spi_cs ?m (spi_cs_n ?m + k) AND 0x00010000 \<noteq> 0"
      by blast
    have "\<forall>j<Suc k. spi_cs m (spi_cs_n m + j) AND 0x00010000 = 0"
    proof (intro allI impI)
      fix j assume "j < Suc k"
      show "spi_cs m (spi_cs_n m + j) AND 0x00010000 = 0"
      proof (cases j)
        case 0
        with True show ?thesis by simp
      next
        case (Suc i)
        with \<open>j < Suc k\<close> k(2) show ?thesis by auto
      qed
    qed
    with k(1,3) show ?thesis by (intro exI [where x = "Suc k"]) simp
  qed
qed


lemma spi_send_receive_done:
  assumes "\<forall>j<k. spi_cs m (spi_cs_n m + j) AND 0x00010000 = 0"
      and "spi_cs m (spi_cs_n m + k) AND 0x00010000 \<noteq> 0"
  shows "spi_send_receive send m =
         Some (ucast (spi_fifo m (spi_fifo_n m)),
               m\<lparr>trace := trace m @ [SpiWrite 1 (ucast send)],
                 spi_cs_n := spi_cs_n m + k + 1,
                 spi_fifo_n := Suc (spi_fifo_n m)\<rparr>)"
proof -
  let ?m = "spi_store 1 (ucast send) m"
  have "spi_wait_done ?m = Some (?m\<lparr>spi_cs_n := spi_cs_n ?m + k + 1\<rparr>)"
    using assms by (intro spi_wait_done_at) (simp_all add: spi_store_def)
  then show ?thesis by (simp add: spi_send_receive_def spi_store_def)
qed

lemma spi_send_receive_Some:
  assumes "spi_send_receive send m = Some (b, m')"
  shows "\<exists>k. b = ucast (spi_fifo m (spi_fifo_n m)) \<and>
             m' = m\<lparr>trace := trace m @ [SpiWrite 1 (ucast send)],
                    spi_cs_n := spi_cs_n m + k + 1,
                    spi_fifo_n := Suc (spi_fifo_n m)\<rparr>"
proof -
  let ?m = "spi_store 1 (ucast send) m"
  from assms obtain m1 where w: "spi_wait_done ?m = Some m1"
    and r: "b = ucast (spi_fifo m1 (spi_fifo_n m1))" "m' = m1\<lparr>spi_fifo_n := Suc (spi_fifo_n m1)\<rparr>"
    by (auto simp add: spi_send_receive_def split: option.splits)
  from spi_wait_done_Some [OF w] obtain k where "m1 = ?m\<lparr>spi_cs_n := spi_cs_n ?m + k + 1\<rparr>"
    by blast
  with r show ?thesis by (intro exI [where x = k]) (simp add: spi_store_def)
qed

lemma sample_bounds:
  fixes b1 b2 :: "8 word"
  shows "0 \<le> push_bit 8 (uint b1 AND 0x03) OR uint b2"
    and "push_bit 8 (uint b1 AND 0x03) OR uint b2 < 1024"
proof -
  let ?r = "push_bit 8 (uint b1 AND 0x03) OR uint b2"
  have three: "bit (3 :: int) n \<longleftrightarrow> n < 2" for n
  proof -
    have e: "(3 :: int) = mask 2" by (simp add: mask_eq_exp_minus_1)
    show ?thesis by (subst e) (simp add: bit_mask_iff)
  qed
  have hi: "bit (768 :: int) n \<longleftrightarrow> n = 8 \<or> n = 9" for n
  proof -
    have e: "(768 :: int) = push_bit 8 (mask 2)" by (simp add: mask_eq_exp_minus_1)
    show ?thesis by (subst e) (auto simp add: bit_simps)
  qed
  have "take_bit 10 ?r = ?r"
    by (rule bit_eqI) (auto simp add: bit_simps three hi dest: bit_imp_le_length)
  then have "?r = take_bit 10 ?r" by simp
  also have "\<dots> < 2 ^ 10" by (rule take_bit_int_less_exp)
  finally show "?r < 1024" by simp
  show "0 \<le> ?r" by simp
qed

lemma get_current_temp_of_transfers:
  assumes "spi_send_receive 0x68 m = Some (b1, m1)"
      and "spi_send_receive 0x00 m1 = Some (b2, m2)"
  shows "get_current_temp m =
         Some (31.25 * (of_int ((push_bit 8 (uint b1 AND 0x03) OR uint b2) * 5) / 1024), m2)"
  using assms by (simp add: get_current_temp_def Let_def)

lemma get_current_temp_Some:
  assumes "get_current_temp m = Some (t, m')"
  shows "\<exists>b1 b2 k1 k2.
           t = 31.25 * (of_int ((push_bit 8 (uint (b1 :: 8 word) AND 0x03)
                                   OR uint (b2 :: 8 word)) * 5) / 1024) \<and>
           m' = m\<lparr>trace := trace m @ [SpiWrite 1 0x68, SpiWrite 1 0x00],
                  spi_cs_n := spi_cs_n m + k1 + k2 + 2,
                  spi_fifo_n := spi_fifo_n m + 2\<rparr>"
proof -
  from assms obtain b1 m1 b2 where
    a: "spi_send_receive 0x68 m = Some (b1, m1)" and
    b: "spi_send_receive 0x00 m1 = Some (b2, m')" and
    t: "t = 31.25 * (of_int ((push_bit 8 (uint b1 AND 0x03) OR uint b2) * 5) / 1024)"
    by (auto simp add: get_current_temp_def Let_def split: option.splits prod.splits)
  from spi_send_receive_Some [OF a] obtain k1 where
    m1: "m1 = m\<lparr>trace := trace m @ [SpiWrite 1 (ucast (0x68 :: 8 word))],
                 spi_cs_n := spi_cs_n m + k1 + 1, spi_fifo_n := Suc (spi_fifo_n m)\<rparr>"
    by blast
  from spi_send_receive_Some [OF b] obtain k2 where
    m2: "m' = m1\<lparr>trace := trace m1 @ [SpiWrite 1 (ucast (0x00 :: 8 word))],
                 spi_cs_n := spi_cs_n m1 + k2 + 1, spi_fifo_n := Suc (spi_fifo_n m1)\<rparr>"
    by blast
  from m1 m2 have "m' = m\<lparr>trace := trace m @ [SpiWrite 1 0x68, SpiWrite 1 0x00],
                  spi_cs_n := spi_cs_n m + k1 + k2 + 2,
                  spi_fifo_n := spi_fifo_n m + 2\<rparr>"
    by simp
  with t show ?thesis by blast
qed

lemma get_current_temp_range:
  assumes "get_current_temp m = Some (t, m')"
  shows "0 \<le> t \<and> t < 157"
proof -
  from get_current_temp_Some [OF assms] obtain b1 b2 :: "8 word" where
    t: "t = 31.25 * (of_int ((push_bit 8 (uint b1 AND 0x03) OR uint b2) * 5) / 1024)"
    by blast
  let ?r = "push_bit 8 (uint b1 AND 0x03) OR uint b2"
  have "0 \<le> ?r" "?r \<le> 1023" using sample_bounds [of b1 b2] by simp_all
  then have "(0 :: rat) \<le> of_int ?r" "(of_int ?r :: rat) \<le> 1023" by simp_all
  then show ?thesis unfolding t by simp
qed

text \<open>
  The \<^verbatim>\<open>double\<close> arithmetic of \<^verbatim>\<open>get_current_temp\<close> does not round. \<^verbatim>\<open>response * 5\<close> is
  an \<^verbatim>\<open>int\<close> below \<open>2 ^ 53\<close>; dividing it by \<open>1024.0 = 2 ^ 10\<close> only changes the
  exponent; \<open>31.25 = 125 / 2 ^ 2\<close>, and the product has the numerator
  \<open>125 * (response * 5)\<close>, again below \<open>2 ^ 53\<close>, over \<open>2 ^ 12\<close>. Each value is a
  binary64 number, so the rational result is the \<^verbatim>\<open>double\<close> returned.
\<close>

lemma get_current_temp_value_exact:
  fixes b1 b2 :: "8 word"
  defines "r \<equiv> push_bit 8 (uint b1 AND 0x03) OR uint b2"
  shows "0 \<le> r * 5 \<and> r * 5 < 2 ^ 53 \<and>
         (of_int (r * 5) / 1024 :: rat) = of_int (r * 5) / 2 ^ 10 \<and>
         0 \<le> 125 * (r * 5) \<and> 125 * (r * 5) < 2 ^ 53 \<and>
         (31.25 * (of_int (r * 5) / 1024) :: rat) = of_int (125 * (r * 5)) / 2 ^ 12"
proof -
  have "0 \<le> r" "r < 1024" unfolding r_def by (rule sample_bounds)+
  then show ?thesis by simp
qed

text \<open>
  Claim C3. \<^verbatim>\<open>get_current_temp\<close> makes two transfers, with the command bytes \<open>0x68\<close>
  and \<open>0x00\<close>. When the slave completes them (after \<open>k1\<close> and \<open>k2\<close> unsuccessful
  polls) and the data register then reads \<open>b1\<close> and \<open>b2\<close>, the function returns
  \<open>31.25 * ((((b1 AND 0x03) << 8) OR b2) * 5 / 1024)\<close>, for every pair of bytes.
\<close>

theorem get_current_temp_formula:
  fixes b1 b2 :: "8 word"
  assumes "\<forall>j<k1. spi_cs m (spi_cs_n m + j) AND 0x00010000 = 0"
      and "spi_cs m (spi_cs_n m + k1) AND 0x00010000 \<noteq> 0"
      and "\<forall>j<k2. spi_cs m (spi_cs_n m + k1 + 1 + j) AND 0x00010000 = 0"
      and "spi_cs m (spi_cs_n m + k1 + 1 + k2) AND 0x00010000 \<noteq> 0"
      and "b1 = ucast (spi_fifo m (spi_fifo_n m))"
      and "b2 = ucast (spi_fifo m (Suc (spi_fifo_n m)))"
  shows "get_current_temp m =
         Some (31.25 * (of_int ((push_bit 8 (uint b1 AND 0x03) OR uint b2) * 5) / 1024),
               m\<lparr>trace := trace m @ [SpiWrite 1 0x68, SpiWrite 1 0x00],
                 spi_cs_n := spi_cs_n m + k1 + k2 + 2,
                 spi_fifo_n := spi_fifo_n m + 2\<rparr>)"
proof -
  let ?m1 = "m\<lparr>trace := trace m @ [SpiWrite 1 (ucast (0x68 :: 8 word))],
                spi_cs_n := spi_cs_n m + k1 + 1, spi_fifo_n := Suc (spi_fifo_n m)\<rparr>"
  have one: "spi_send_receive 0x68 m = Some (b1, ?m1)"
    unfolding assms(5) by (rule spi_send_receive_done [OF assms(1,2)])
  have "spi_send_receive 0x00 ?m1 =
        Some (ucast (spi_fifo ?m1 (spi_fifo_n ?m1)),
              ?m1\<lparr>trace := trace ?m1 @ [SpiWrite 1 (ucast (0x00 :: 8 word))],
                   spi_cs_n := spi_cs_n ?m1 + k2 + 1,
                   spi_fifo_n := Suc (spi_fifo_n ?m1)\<rparr>)"
    using assms(3,4) by (intro spi_send_receive_done) simp_all
  then have two: "spi_send_receive 0x00 ?m1 =
        Some (b2, m\<lparr>trace := trace m @ [SpiWrite 1 0x68, SpiWrite 1 0x00],
                 spi_cs_n := spi_cs_n m + k1 + k2 + 2,
                 spi_fifo_n := spi_fifo_n m + 2\<rparr>)"
    by (simp add: assms(6))
  from get_current_temp_of_transfers [OF one two] show ?thesis .
qed

theorem get_current_temp_formula_witness:
  "get_current_temp (power_on [0x01, 0x27]) =
     Some (184375 / 4096,
           (power_on [0x01, 0x27])\<lparr>trace := [SpiWrite 1 0x68, SpiWrite 1 0x00],
                                     spi_cs_n := 2, spi_fifo_n := 2\<rparr>) \<and>
   get_current_temp (power_on [0xFF, 0x80]) =
     Some (4375 / 32,
           (power_on [0xFF, 0x80])\<lparr>trace := [SpiWrite 1 0x68, SpiWrite 1 0x00],
                                     spi_cs_n := 2, spi_fifo_n := 2\<rparr>)"
  using get_current_temp_formula
          [where m = "power_on [0x01, 0x27]" and ?k1.0 = 0 and ?k2.0 = 0
             and ?b1.0 = "0x01" and ?b2.0 = "0x27"]
        get_current_temp_formula
          [where m = "power_on [0xFF, 0x80]" and ?k1.0 = 0 and ?k2.0 = 0
             and ?b1.0 = "0xFF" and ?b2.0 = "0x80"]
  by (simp add: power_on_def)

section \<open>The control loop\<close>

lemma check_temp_body_vars:
  "target_temp (check_temp_body c m) = target_temp m"
  "last_temp (check_temp_body c m) = c"
  "overshoot (check_temp_body c m) = max c (overshoot m)"
  by (simp_all add: check_temp_body_def Let_def printf_def digital_write_def gpio_store_def
        CONTROLPIN_def)

lemma Max_insert_max:
  fixes a r :: "32 word"
  shows "Max (insert (max r a) (set rs)) = Max (insert a (set (r # rs)))"
  by (cases "rs = []") (auto simp add: max.commute max.left_commute max.assoc)

lemma overshoot_observe:
  "overshoot (observe rs m) = Max (insert (overshoot m) (set rs))"
proof (induction rs arbitrary: m)
  case Nil
  then show ?case by simp
next
  case (Cons r rs)
  then show ?case
    using Max_insert_max [of r "overshoot m" rs] by (simp add: check_temp_body_vars)
qed

lemma Max_insert_zero:
  fixes rs :: "32 word list"
  assumes "rs \<noteq> []"
  shows "Max (insert 0 (set rs)) = Max (set rs)"
  using assms by (simp add: max_def)

lemma control_loop_overshoot:
  "control_loop n m = Some m' \<Longrightarrow>
     \<exists>rs. readings n m = Some rs \<and> length rs = n \<and>
          overshoot m' = Max (insert (overshoot m) (set rs))"
proof (induction n arbitrary: m)
  case 0
  then show ?case by simp
next
  case (Suc n)
  from Suc.prems obtain t m1 where
    g: "get_current_temp m = Some (t, m1)" and
    l: "control_loop n (check_temp_body (double_to_size_t t) m1) = Some m'"
    by (auto simp add: check_temp_def split: option.splits)
  from Suc.IH [OF l] obtain rs where
    r: "readings n (check_temp_body (double_to_size_t t) m1) = Some rs" and
    n: "length rs = n" and
    o: "overshoot m' = Max (insert (overshoot (check_temp_body (double_to_size_t t) m1)) (set rs))"
    by blast
  from get_current_temp_Some [OF g] have om: "overshoot m1 = overshoot m" by auto
  from g r n o om show ?case
    using Max_insert_max [of "double_to_size_t t" "overshoot m" rs]
    by (simp add: check_temp_body_vars)
qed

text \<open>
  Claim C7. Every iteration assigns \<^verbatim>\<open>overshoot\<close> the maximum of the current truncated
  reading and its old value, so it never decreases. \<^verbatim>\<open>main\<close> starts it at \<open>0\<close>; from
  there, after any nonempty sequence of iterations it is the largest reading seen so
  far, both for readings given directly and for the readings that \<open>n\<close> iterations of
  the loop obtain over SPI.
\<close>

theorem overshoot_running_maximum:
  "overshoot (check_temp_body c m) = max c (overshoot m) \<and>
   overshoot m \<le> overshoot (check_temp_body c m) \<and>
   (overshoot m = 0 \<and> rs \<noteq> [] \<longrightarrow> overshoot (observe rs m) = Max (set rs)) \<and>
   (overshoot m = 0 \<and> 0 < n \<and> control_loop n m = Some m' \<longrightarrow>
      (\<exists>rs. readings n m = Some rs \<and> length rs = n \<and> overshoot m' = Max (set rs)))"
proof -
  have a: "overshoot (check_temp_body c m) = max c (overshoot m)"
    by (rule check_temp_body_vars)
  have b: "overshoot m \<le> overshoot (check_temp_body c m)"
    by (simp add: a)
  have c: "overshoot (observe rs m) = Max (set rs)" if "overshoot m = 0" "rs \<noteq> []"
    using that by (simp add: overshoot_observe Max_insert_zero del: Max_insert)
  have d: "\<exists>rs. readings n m = Some rs \<and> length rs = n \<and> overshoot m' = Max (set rs)"
    if "overshoot m = 0" "0 < n" "control_loop n m = Some m'"
  proof -
    from control_loop_overshoot [OF that(3)] obtain rs where
      rs: "readings n m = Some rs" "length rs = n"
          "overshoot m' = Max (insert (overshoot m) (set rs))"
      by blast
    from rs(2) that(2) have "rs \<noteq> []" by auto
    with rs that(1) show ?thesis by (auto simp add: Max_insert_zero simp del: Max_insert)
  qed
  from a b c d show ?thesis by blast
qed

lemma control_loop_two_returns:
  "control_loop 2 (power_on [0x01, 0x27, 0x01, 0x55]) \<noteq> None"
  by code_simp

theorem overshoot_running_maximum_witness:
  "overshoot (check_temp_body 49 ((power_on [])\<lparr>overshoot := 52\<rparr>)) = 52 \<and>
   overshoot (observe [45, 45, 52, 52, 49] ((power_on [])\<lparr>target_temp := 50\<rparr>)) = 52 \<and>
   (\<exists>rs. readings 2 (power_on [0x01, 0x27, 0x01, 0x55]) = Some rs \<and> length rs = 2 \<and>
         overshoot (the (control_loop 2 (power_on [0x01, 0x27, 0x01, 0x55]))) = Max (set rs))"
proof -
  have z: "overshoot (power_on [0x01, 0x27, 0x01, 0x55]) = 0"
          "overshoot ((power_on [])\<lparr>target_temp := 50\<rparr>) = 0"
    by (simp_all add: power_on_def)
  have r: "control_loop 2 (power_on [0x01, 0x27, 0x01, 0x55]) =
           Some (the (control_loop 2 (power_on [0x01, 0x27, 0x01, 0x55])))"
    using control_loop_two_returns by simp
  show ?thesis
    using overshoot_running_maximum [of 49 "(power_on [])\<lparr>overshoot := 52\<rparr>"]
          overshoot_running_maximum
            [of _ "(power_on [])\<lparr>target_temp := 50\<rparr>" "[45, 45, 52, 52, 49]"]
          overshoot_running_maximum
            [of _ "power_on [0x01, 0x27, 0x01, 0x55]" _ 2
                "the (control_loop 2 (power_on [0x01, 0x27, 0x01, 0x55]))"]
          z r
    by (simp add: power_on_def)
qed

text \<open>
  Claim C1. Target 50, \<^verbatim>\<open>last_temp\<close> and \<^verbatim>\<open>overshoot\<close> at 0 as \<^verbatim>\<open>main\<close> leaves them,
  truncated readings 45, 45, 52, 52, 49. The heater pin 17 is set, set, cleared,
  cleared, set (registers 7 and 10, bit 17), as the claim says. The claim also
  expects \<^verbatim>\<open>overshoot: 2\<close> once, when the reading first reaches 52. The code prints one
  overshoot line there, but \<^verbatim>\<open>overshoot\<close> is only updated at the end of the iteration:
  it still holds 45, and the unsigned \<open>45 - 50\<close> wraps to \<open>4294967291\<close>.
  \<^verbatim>\<open>overshoot: 2\<close> is never printed.
\<close>

theorem check_temp_scenario:
  "trace (observe [45, 45, 52, 52, 49] ((power_on [])\<lparr>target_temp := 50\<rparr>)) =
     [Print (''current temp: 45'' @ nl), GpioWrite 7 0x20000,
      GpioWrite 7 0x20000,
      Print (''current temp: 52'' @ nl), Print (''overshoot: 4294967291'' @ nl),
      GpioWrite 10 0x20000,
      GpioWrite 10 0x20000,
      Print (''current temp: 49'' @ nl), GpioWrite 7 0x20000] \<and>
   Print (''overshoot: 2'' @ nl)
     \<notin> set (trace (observe [45, 45, 52, 52, 49] ((power_on [])\<lparr>target_temp := 50\<rparr>)))"
  by (simp add: check_temp_body_def power_on_def printf_def digital_write_def gpio_store_def
        fmt_lu_def dec_digits.simps CONTROLPIN_def Let_def nl_def)

text \<open>
  The same scenario through the whole program: \<^verbatim>\<open>main\<close> with the argument \<^verbatim>\<open>50\<close>, and an
  SPI slave answering the raw samples 295, 295, 341, 341, 322 (45.01, 45.01, 52.03,
  52.03 and 49.13 degrees).
\<close>

lemma scenario_whole_program:
  "(case main strtol10 5 [''temp_control'', ''50'']
           (power_on [0x01, 0x27, 0x01, 0x27, 0x01, 0x55, 0x01, 0x55, 0x01, 0x42]) of
      Running m \<Rightarrow>
        trace m =
          [OpenDevMem, MapRegion 0x3F200000, OpenDevMem, MapRegion 0x3F204000,
           GpioWrite 0 0, GpioWrite 0 0x4000000, GpioWrite 0 0x4000000,
           GpioWrite 0 0x24000000, GpioWrite 1 0, GpioWrite 1 4, GpioWrite 1 4,
           GpioWrite 1 0x24, SpiWrite 2 1024, SpiWrite 0 0, SpiWrite 0 0x10080,
           GpioWrite 1 0x24, GpioWrite 1 0x200024,
           SpiWrite 1 0x68, SpiWrite 1 0,
           Print (''current temp: 45'' @ nl), GpioWrite 7 0x20000,
           SpiWrite 1 0x68, SpiWrite 1 0,
           GpioWrite 7 0x20000,
           SpiWrite 1 0x68, SpiWrite 1 0,
           Print (''current temp: 52'' @ nl), Print (''overshoot: 4294967291'' @ nl),
           GpioWrite 10 0x20000,
           SpiWrite 1 0x68, SpiWrite 1 0,
           GpioWrite 10 0x20000,
           SpiWrite 1 0x68, SpiWrite 1 0,
           Print (''current temp: 49'' @ nl), GpioWrite 7 0x20000] \<and>
        target_temp m = 50 \<and> last_temp m = 49 \<and> overshoot m = 52
    | _ \<Rightarrow> False)"
  by code_simp

text \<open>
  Claim C2, as stated: the value on the \<^verbatim>\<open>overshoot:\<close> line is overshoot minus target
  and can be negative. With target 50 and \<^verbatim>\<open>overshoot\<close> 45 the difference is \<open>-5\<close>; the
  code prints \<open>4294967291\<close>, and no line \<^verbatim>\<open>overshoot: -5\<close>.
\<close>

theorem overshoot_report_negative_counterexample:
  "(52 :: 32 word)
     \<noteq> last_temp ((power_on [])\<lparr>target_temp := 50, last_temp := 45, overshoot := 45\<rparr>) \<and>
   target_temp ((power_on [])\<lparr>target_temp := 50, last_temp := 45, overshoot := 45\<rparr>) \<le> 52 \<and>
   trace (check_temp_body 52
            ((power_on [])\<lparr>target_temp := 50, last_temp := 45, overshoot := 45\<rparr>)) =
     [Print (''current temp: 52'' @ nl), Print (''overshoot: 4294967291'' @ nl),
      GpioWrite 10 0x20000] \<and>
   fmt_d (uint (45 :: 32 word) - uint (50 :: 32 word)) = ''-5'' \<and>
   Print (''overshoot: -5'' @ nl)
     \<notin> set (trace (check_temp_body 52
            ((power_on [])\<lparr>target_temp := 50, last_temp := 45, overshoot := 45\<rparr>)))"
  by (simp add: check_temp_body_def power_on_def printf_def digital_write_def gpio_store_def
        fmt_lu_def fmt_d_def dec_digits.simps CONTROLPIN_def Let_def nl_def)

text \<open>
  Claim C2, amended. In an iteration whose truncated reading differs from the previous
  one and is at or above the target, the code prints the reading and then one
  \<^verbatim>\<open>overshoot:\<close> line, and clears the heater pin. The number on that line is unsigned:
  it is never negative. When the reading does not exceed the \<^verbatim>\<open>overshoot\<close> already
  recorded, so that this iteration leaves the running maximum as it is, the number
  is overshoot minus target. (What is printed when the reading exceeds the recorded
  overshoot is the subject of claim C1 and is not fixed here.)
\<close>

theorem overshoot_report_value:
  assumes "current_temp \<noteq> last_temp m" "target_temp m \<le> current_temp"
  shows "\<exists>v. trace (check_temp_body current_temp m) =
               trace m @ [Print (''current temp: '' @ dec_digits (uint current_temp) @ nl),
                          Print (''overshoot: '' @ dec_digits v @ nl),
                          GpioWrite 10 0x20000] \<and>
             0 \<le> v \<and>
             (current_temp \<le> overshoot m \<longrightarrow>
                overshoot (check_temp_body current_temp m) = overshoot m \<and>
                v = uint (overshoot m) - uint (target_temp m))"
proof -
  let ?v = "uint (overshoot m - target_temp m)"
  have "\<not> current_temp < target_temp m" using assms(2) by simp
  then have t: "trace (check_temp_body current_temp m) =
           trace m @ [Print (''current temp: '' @ dec_digits (uint current_temp) @ nl),
                      Print (''overshoot: '' @ dec_digits ?v @ nl),
                      GpioWrite 10 0x20000]"
    using assms by (simp add: check_temp_body_def Let_def printf_def digital_write_def
        gpio_store_def CONTROLPIN_def fmt_lu_def)
  have n: "0 \<le> ?v" by simp
  have r: "overshoot (check_temp_body current_temp m) = overshoot m \<and>
           ?v = uint (overshoot m) - uint (target_temp m)"
    if "current_temp \<le> overshoot m"
  proof -
    from that assms(2) have "target_temp m \<le> overshoot m" by simp
    then have "?v = uint (overshoot m) - uint (target_temp m)"
      by (simp add: uint_minus_simple_alt)
    with that show ?thesis by (simp add: check_temp_body_vars max_def)
  qed
  from t n r show ?thesis by blast
qed

theorem overshoot_report_value_witness:
  "trace (check_temp_body 52
            ((power_on [])\<lparr>target_temp := 50, last_temp := 49, overshoot := 55\<rparr>)) =
     [Print (''current temp: 52'' @ nl), Print (''overshoot: 5'' @ nl), GpioWrite 10 0x20000]"
  using overshoot_report_value
          [of 52 "(power_on [])\<lparr>target_temp := 50, last_temp := 49, overshoot := 55\<rparr>"]
  by (auto simp add: power_on_def dec_digits.simps)




section \<open>Command line\<close>










section \<open>System timer\<close>

lemma timer_wait_match_at:
  assumes "\<forall>j<k. timer_cs m (timer_cs_n m + j) AND 0x2 = 0"
      and "timer_cs m (timer_cs_n m + k) AND 0x2 \<noteq> 0"
  shows "timer_wait_match m = Some (m\<lparr>timer_cs_n := timer_cs_n m + k + 1\<rparr>)"
  using assms
proof (induction k arbitrary: m)
  case 0
  then show ?case by (subst timer_wait_match.simps) simp
next
  case (Suc k)
  let ?m = "m\<lparr>timer_cs_n := Suc (timer_cs_n m)\<rparr>"
  from Suc.prems(1) have first: "timer_cs m (timer_cs_n m) AND 0x2 = 0"
    by (metis add.right_neutral zero_less_Suc)
  have "\<forall>j<k. timer_cs ?m (timer_cs_n ?m + j) AND 0x2 = 0"
    using Suc.prems(1) by (auto dest: spec [where x = "Suc j" for j])
  moreover have "timer_cs ?m (timer_cs_n ?m + k) AND 0x2 \<noteq> 0"
    using Suc.prems(2) by simp
  ultimately have "timer_wait_match ?m = Some (?m\<lparr>timer_cs_n := timer_cs_n ?m + k + 1\<rparr>)"
    by (rule Suc.IH)
  with first show ?case by (subst timer_wait_match.simps) simp
qed

lemma sleep_micros_nonzero:
  assumes "micros \<noteq> 0"
      and "\<forall>j<k. timer_cs m (timer_cs_n m + j) AND 0x2 = 0"
      and "timer_cs m (timer_cs_n m + k) AND 0x2 \<noteq> 0"
  shows "sleep_micros micros m =
         Some (m\<lparr>trace := trace m @ [TimerWrite 4 (timer_clo m (timer_clo_n m) + word_of_int micros),
                                     TimerWrite 0 0x2],
                 timer_clo_n := Suc (timer_clo_n m),
                 timer_cs_n := timer_cs_n m + k + 1\<rparr>)"
proof -
  let ?m = "timer_store 0 0x2
              (timer_store 4 (timer_clo m (timer_clo_n m) + word_of_int micros)
                 (m\<lparr>timer_clo_n := Suc (timer_clo_n m)\<rparr>))"
  have "timer_wait_match ?m = Some (?m\<lparr>timer_cs_n := timer_cs_n ?m + k + 1\<rparr>)"
    using assms(2,3) by (intro timer_wait_match_at) (simp_all add: timer_store_def)
  with assms(1) show ?thesis by (simp add: sleep_micros_def Let_def timer_store_def)
qed

text \<open>
  Claim C9, as stated: for every nonzero \<open>d\<close>, \<^verbatim>\<open>sleep_millis(d)\<close> behaves as
  \<^verbatim>\<open>sleep_micros(1000 * d)\<close>. \<open>d = 536870912\<close> is a nonzero \<^verbatim>\<open>int\<close>, but
  \<open>1000 * d\<close> is not: in \<^verbatim>\<open>sleep_millis\<close> the product overflows and nothing is promised,
  while \<^verbatim>\<open>sleep_micros\<close> of that number would program the compare register.
\<close>

theorem sleep_millis_overflow_counterexample:
  "(536870912 :: int) \<noteq> 0 \<and> - (2 ^ 31) \<le> (536870912 :: int) \<and> (536870912 :: int) < 2 ^ 31 \<and>
   sleep_millis 536870912 (power_on []) = Inl Signed_overflow \<and>
   sleep_micros (1000 * 536870912) (power_on []) =
     Some ((power_on [])\<lparr>trace := [TimerWrite 4 0, TimerWrite 0 0x2],
                          timer_clo_n := 1, timer_cs_n := 1\<rparr>) \<and>
   sleep_millis 536870912 (power_on [])
     \<noteq> Inr (sleep_micros (1000 * 536870912) (power_on []))"
  using sleep_micros_nonzero [of "1000 * 536870912" 0 "power_on []"]
  by (simp add: sleep_millis_def power_on_def)

text \<open>
  Claim C9, amended. \<^verbatim>\<open>sleep_micros(0)\<close> returns at once with the machine as it was: no
  timer register is read or written. For every nonzero \<open>d\<close> whose product \<open>1000 * d\<close>
  fits an \<^verbatim>\<open>int\<close>, \<^verbatim>\<open>sleep_millis(d)\<close> does what \<^verbatim>\<open>sleep_micros(1000 * d)\<close> does: it never
  returns when that does not, and when the match bit is seen after \<open>k\<close> unsuccessful
  polls it has read the counter once, stored counter \<open>+ 1000 * d\<close> into compare
  register 4 and \<open>0x2\<close> into the status register, and polled \<open>k + 1\<close> times.
\<close>

theorem sleep_zero_and_millis:
  "sleep_micros 0 m = Some m \<and>
   (d \<noteq> 0 \<and> - (2 ^ 31) \<le> 1000 * d \<and> 1000 * d < 2 ^ 31 \<longrightarrow>
      sleep_millis d m = Inr (sleep_micros (1000 * d) m)) \<and>
   (d \<noteq> 0 \<and> - (2 ^ 31) \<le> 1000 * d \<and> 1000 * d < 2 ^ 31 \<and>
    (\<forall>j<k. timer_cs m (timer_cs_n m + j) AND 0x2 = 0) \<and>
    timer_cs m (timer_cs_n m + k) AND 0x2 \<noteq> 0 \<longrightarrow>
      sleep_millis d m =
        Inr (Some (m\<lparr>trace := trace m @
                       [TimerWrite 4 (timer_clo m (timer_clo_n m) + word_of_int (1000 * d)),
                        TimerWrite 0 0x2],
                     timer_clo_n := Suc (timer_clo_n m),
                     timer_cs_n := timer_cs_n m + k + 1\<rparr>)))"
proof -
  have zero: "sleep_micros 0 m = Some m"
    by (simp add: sleep_micros_def)
  have same: "sleep_millis d m = Inr (sleep_micros (1000 * d) m)"
    if "- (2 ^ 31) \<le> 1000 * d" "1000 * d < 2 ^ 31"
    using that by (simp add: sleep_millis_def)
  have effect: "sleep_millis d m =
        Inr (Some (m\<lparr>trace := trace m @
                       [TimerWrite 4 (timer_clo m (timer_clo_n m) + word_of_int (1000 * d)),
                        TimerWrite 0 0x2],
                     timer_clo_n := Suc (timer_clo_n m),
                     timer_cs_n := timer_cs_n m + k + 1\<rparr>))"
    if "d \<noteq> 0" "- (2 ^ 31) \<le> 1000 * d" "1000 * d < 2 ^ 31"
       "\<forall>j<k. timer_cs m (timer_cs_n m + j) AND 0x2 = 0"
       "timer_cs m (timer_cs_n m + k) AND 0x2 \<noteq> 0"
  proof -
    from that(1) have "1000 * d \<noteq> 0" by simp
    from sleep_micros_nonzero [OF this that(4,5)] same [OF that(2,3)]
    show ?thesis by simp
  qed
  from zero same effect show ?thesis by blast
qed

theorem sleep_zero_and_millis_witness:
  "sleep_micros 0 (power_on []) = Some (power_on []) \<and>
   sleep_millis 3 (power_on []) =
     Inr (Some ((power_on [])\<lparr>trace := [TimerWrite 4 3000, TimerWrite 0 0x2],
                               timer_clo_n := 1, timer_cs_n := 1\<rparr>))"
  using sleep_zero_and_millis [of "power_on []" 3 0, THEN conjunct1]
        sleep_zero_and_millis [of "power_on []" 3 0, THEN conjunct2, THEN conjunct2]
  by (simp add: power_on_def)

end
